theory Spec2Isabelle
  imports Main "HOL-Library.Sublist" "HOL-Library.AList"
begin

section \<open>Python values used by the email content normalizer\<close>

text \<open>
  The program is \<^verbatim>\<open>src/ObtainEmlLambda/lambda_function.py\<close>. A Python \<^verbatim>\<open>bytes\<close> object is a
  list of 8-bit characters, a Python \<^verbatim>\<open>str\<close> is a list of Unicode code points (natural
  numbers). String literals of the source are written with \<open>str\<close>, which reads an ASCII
  literal as its code points.
\<close>

type_synonym bytes = "char list"
type_synonym pystr = "nat list"

definition str :: "string \<Rightarrow> pystr" where
  "str s = map of_char s"

datatype py_error = UnicodeDecodeError | LookupError | AttributeError | TypeError

section \<open>The codecs behind \<^verbatim>\<open>payload.decode(encoding)\<close>\<close>

text \<open>
  Strict UTF-8 as CPython decodes it: shortest form only, no surrogates (an \<^verbatim>\<open>ED\<close> lead
  byte takes a second byte below \<^verbatim>\<open>A0\<close>), nothing above U+10FFFF. \<open>None\<close> is
  \<^verbatim>\<open>UnicodeDecodeError\<close>.
\<close>

definition is_cont :: "nat \<Rightarrow> bool" where
  "is_cont b = (128 \<le> b \<and> b < 192)"

fun utf8_strict :: "nat list \<Rightarrow> pystr option" where
  "utf8_strict [] = Some []"
| "utf8_strict (b0 # bs) =
     (if b0 < 128 then map_option ((#) b0) (utf8_strict bs)
      else if 194 \<le> b0 \<and> b0 < 224 then
        (case bs of
           b1 # r \<Rightarrow>
             (if is_cont b1
              then map_option ((#) ((b0 - 192) * 64 + (b1 - 128))) (utf8_strict r)
              else None)
         | _ \<Rightarrow> None)
      else if 224 \<le> b0 \<and> b0 < 240 then
        (case bs of
           b1 # b2 # r \<Rightarrow>
             (if is_cont b1 \<and> is_cont b2
                 \<and> (if b0 = 224 then 160 \<le> b1 else True)
                 \<and> (if b0 = 237 then b1 < 160 else True)
              then map_option ((#) ((b0 - 224) * 4096 + (b1 - 128) * 64 + (b2 - 128)))
                     (utf8_strict r)
              else None)
         | _ \<Rightarrow> None)
      else if 240 \<le> b0 \<and> b0 < 245 then
        (case bs of
           b1 # b2 # b3 # r \<Rightarrow>
             (if is_cont b1 \<and> is_cont b2 \<and> is_cont b3
                 \<and> (if b0 = 240 then 144 \<le> b1 else True)
                 \<and> (if b0 = 244 then b1 < 144 else True)
              then map_option
                     ((#) ((b0 - 240) * 262144 + (b1 - 128) * 4096 + (b2 - 128) * 64 + (b3 - 128)))
                     (utf8_strict r)
              else None)
         | _ \<Rightarrow> None)
      else None)"

definition utf8_decode :: "bytes \<Rightarrow> pystr option" where
  "utf8_decode payload = utf8_strict (map of_char payload)"

text \<open>\<^verbatim>\<open>utf-8-sig\<close> drops one leading byte order mark \<^verbatim>\<open>EF BB BF\<close>, then decodes UTF-8.\<close>

definition utf8_sig_decode :: "bytes \<Rightarrow> pystr option" where
  "utf8_sig_decode payload =
     (if take 3 (map of_char payload) = [239, 187, 191 :: nat]
      then utf8_decode (drop 3 payload)
      else utf8_decode payload)"

text \<open>
  The charmap codecs. Windows-1252 leaves five bytes undefined (81, 8D, 8F, 90, 9D in
  hexadecimal), so decoding a payload that holds one of them fails.
\<close>

definition cp1252_high :: "(nat \<times> nat) list" where
  "cp1252_high =
     [(128, 8364), (130, 8218), (131, 402), (132, 8222), (133, 8230), (134, 8224),
      (135, 8225), (136, 710), (137, 8240), (138, 352), (139, 8249), (140, 338),
      (142, 381), (145, 8216), (146, 8217), (147, 8220), (148, 8221), (149, 8226),
      (150, 8211), (151, 8212), (152, 732), (153, 8482), (154, 353), (155, 8250),
      (156, 339), (158, 382), (159, 376)]"

definition cp1252_char :: "nat \<Rightarrow> nat option" where
  "cp1252_char b = (if b < 128 \<or> 160 \<le> b then Some b else map_of cp1252_high b)"

definition iso8859_15_special :: "(nat \<times> nat) list" where
  "iso8859_15_special =
     [(164, 8364), (166, 352), (168, 353), (180, 381), (184, 382), (188, 338),
      (189, 339), (190, 376)]"

definition iso8859_15_char :: "nat \<Rightarrow> nat option" where
  "iso8859_15_char b = (case map_of iso8859_15_special b of Some c \<Rightarrow> Some c | None \<Rightarrow> Some b)"

definition ascii_char :: "nat \<Rightarrow> nat option" where
  "ascii_char b = (if b < 128 then Some b else None)"

definition charmap_decode :: "(nat \<Rightarrow> nat option) \<Rightarrow> bytes \<Rightarrow> pystr option" where
  "charmap_decode table payload = those (map (\<lambda>c. table (of_char c)) payload)"

definition latin1_decode :: "bytes \<Rightarrow> pystr" where
  "latin1_decode payload = map of_char payload"

text \<open>
  \<^verbatim>\<open>payload.decode(encoding)\<close> with the default strict error handling. The seven names of
  the source's list are registered; any other name is a \<^verbatim>\<open>LookupError\<close> (the source passes
  no other name).
\<close>

definition lift_decode :: "pystr option \<Rightarrow> py_error + pystr" where
  "lift_decode r = (case r of None \<Rightarrow> Inl UnicodeDecodeError | Some s \<Rightarrow> Inr s)"

definition bytes_decode :: "bytes \<Rightarrow> string \<Rightarrow> py_error + pystr" where
  "bytes_decode payload encoding =
     (if encoding = ''utf-8'' then lift_decode (utf8_decode payload)
      else if encoding = ''utf-8-sig'' then lift_decode (utf8_sig_decode payload)
      else if encoding = ''cp1252'' then lift_decode (charmap_decode cp1252_char payload)
      else if encoding = ''latin-1'' then Inr (latin1_decode payload)
      else if encoding = ''iso-8859-1'' then Inr (latin1_decode payload)
      else if encoding = ''iso-8859-15'' then lift_decode (charmap_decode iso8859_15_char payload)
      else if encoding = ''ascii'' then lift_decode (charmap_decode ascii_char payload)
      else Inl LookupError)"

section \<open>\<^verbatim>\<open>safe_decode\<close> (lines 27 to 50)\<close>

definition encodings :: "string list" where
  "encodings =
     [''utf-8'', ''utf-8-sig'', ''cp1252'', ''latin-1'', ''iso-8859-1'', ''iso-8859-15'', ''ascii'']"

text \<open>
  The \<^verbatim>\<open>for\<close> loop of \<^verbatim>\<open>safe_decode\<close>. It returns from inside the loop with the decoded
  text, after logging the name of the encoding that worked, so the model returns both;
  \<open>Inr None\<close> is the loop running to its end. Only \<^verbatim>\<open>UnicodeDecodeError\<close> and
  \<^verbatim>\<open>LookupError\<close> are caught, any other exception leaves the function.
\<close>

fun try_encodings :: "bytes \<Rightarrow> string list \<Rightarrow> py_error + (string \<times> pystr) option" where
  "try_encodings payload [] = Inr None"
| "try_encodings payload (encoding # rest) =
     (case bytes_decode payload encoding of
        Inr decoded \<Rightarrow> Inr (Some (encoding, decoded))
      | Inl e \<Rightarrow>
          (if e = UnicodeDecodeError \<or> e = LookupError
           then try_encodings payload rest
           else Inl e))"

text \<open>
  After the loop the source decodes UTF-8 with \<^verbatim>\<open>errors='replace'\<close> inside a
  \<^verbatim>\<open>try\<close>, and on any exception decodes Latin-1. The lossy decoder of the Python runtime
  is the parameter \<open>utf8_replace\<close>; it may return an error, which the source catches.
\<close>

definition safe_decode ::
  "(bytes \<Rightarrow> py_error + pystr) \<Rightarrow> bytes \<Rightarrow> string list \<Rightarrow> py_error + pystr" where
  "safe_decode utf8_replace payload encodings_to_try =
     (case try_encodings payload encodings_to_try of
        Inl e \<Rightarrow> Inl e
      | Inr (Some (encoding, decoded)) \<Rightarrow> Inr decoded
      | Inr None \<Rightarrow>
          (case utf8_replace payload of
             Inr decoded \<Rightarrow> Inr decoded
           | Inl e \<Rightarrow> bytes_decode payload ''latin-1''))"

text \<open>
  CPython's \<^verbatim>\<open>decode('utf-8', errors='replace')\<close>, the value the parameter has at run
  time: every maximal ill-formed prefix of a sequence (an invalid start byte, the bytes
  before an invalid continuation byte, or a sequence cut off by the end of the data)
  becomes one U+FFFD. It raises nothing.
\<close>

fun utf8_lossy :: "nat list \<Rightarrow> pystr" where
  "utf8_lossy [] = []"
| "utf8_lossy (b0 # bs) =
     (if b0 < 128 then b0 # utf8_lossy bs
      else if b0 < 194 \<or> 245 \<le> b0 then 65533 # utf8_lossy bs
      else if b0 < 224 then
        (case bs of
           [] \<Rightarrow> [65533]
         | b1 # r1 \<Rightarrow>
             (if is_cont b1 then ((b0 - 192) * 64 + (b1 - 128)) # utf8_lossy r1
              else 65533 # utf8_lossy bs))
      else if b0 < 240 then
        (case bs of
           [] \<Rightarrow> [65533]
         | b1 # r1 \<Rightarrow>
             (if \<not> (is_cont b1 \<and> (if b0 = 224 then 160 \<le> b1 else True)
                       \<and> (if b0 = 237 then b1 < 160 else True))
              then 65533 # utf8_lossy bs
              else (case r1 of
                      [] \<Rightarrow> [65533]
                    | b2 # r2 \<Rightarrow>
                        (if is_cont b2
                         then ((b0 - 224) * 4096 + (b1 - 128) * 64 + (b2 - 128)) # utf8_lossy r2
                         else 65533 # utf8_lossy r1))))
      else
        (case bs of
           [] \<Rightarrow> [65533]
         | b1 # r1 \<Rightarrow>
             (if \<not> (is_cont b1 \<and> (if b0 = 240 then 144 \<le> b1 else True)
                       \<and> (if b0 = 244 then b1 < 144 else True))
              then 65533 # utf8_lossy bs
              else (case r1 of
                      [] \<Rightarrow> [65533]
                    | b2 # r2 \<Rightarrow>
                        (if \<not> is_cont b2 then 65533 # utf8_lossy r1
                         else (case r2 of
                                 [] \<Rightarrow> [65533]
                               | b3 # r3 \<Rightarrow>
                                   (if is_cont b3
                                    then ((b0 - 240) * 262144 + (b1 - 128) * 4096
                                            + (b2 - 128) * 64 + (b3 - 128)) # utf8_lossy r3
                                    else 65533 # utf8_lossy r2)))))))"

definition cpython_utf8_replace :: "bytes \<Rightarrow> py_error + pystr" where
  "cpython_utf8_replace payload = Inr (utf8_lossy (map of_char payload))"

section \<open>String methods\<close>

definition startswith :: "pystr \<Rightarrow> pystr \<Rightarrow> bool" where
  "startswith s p = prefix p s"


text \<open>The code points \<^verbatim>\<open>str.strip()\<close> removes (those for which \<^verbatim>\<open>str.isspace\<close> holds).\<close>

definition is_space :: "nat \<Rightarrow> bool" where
  "is_space c =
     ((9 \<le> c \<and> c \<le> 13) \<or> (28 \<le> c \<and> c \<le> 32) \<or> c = 133 \<or> c = 160 \<or> c = 5760
      \<or> (8192 \<le> c \<and> c \<le> 8202) \<or> c = 8232 \<or> c = 8233 \<or> c = 8239 \<or> c = 8287
      \<or> c = 12288)"

definition py_strip :: "pystr \<Rightarrow> pystr" where
  "py_strip s = rev (dropWhile is_space (rev (dropWhile is_space s)))"

text \<open>\<^verbatim>\<open>s.strip(chars)\<close>: leading and trailing code points that are in \<open>chars\<close> go.\<close>

definition strip_chars :: "pystr \<Rightarrow> pystr \<Rightarrow> pystr" where
  "strip_chars chars s =
     rev (dropWhile (\<lambda>c. c \<in> set chars) (rev (dropWhile (\<lambda>c. c \<in> set chars) s)))"

text \<open>
  \<^verbatim>\<open>str.lower()\<close>. An ASCII code point is lowered by itself. For any other code point
  the result comes from the Unicode database and may depend on the neighbours (the final
  sigma rule), so the database is the parameter \<open>tbl\<close>: it maps the code points before,
  the code point and the code points after to the lowered code points.
\<close>

type_synonym lower_table = "pystr \<Rightarrow> nat \<Rightarrow> pystr \<Rightarrow> pystr"

definition ascii_lower :: "nat \<Rightarrow> nat" where
  "ascii_lower c = (if 65 \<le> c \<and> c \<le> 90 then c + 32 else c)"

fun lower_from :: "lower_table \<Rightarrow> pystr \<Rightarrow> pystr \<Rightarrow> pystr" where
  "lower_from tbl seen [] = []"
| "lower_from tbl seen (c # cs) =
     (if c < 128 then [ascii_lower c] else tbl seen c cs) @ lower_from tbl (seen @ [c]) cs"

definition py_lower :: "lower_table \<Rightarrow> pystr \<Rightarrow> pystr" where
  "py_lower tbl s = lower_from tbl [] s"

text \<open>A table with no entry: every code point outside ASCII lowers to itself.\<close>

definition caseless_table :: lower_table where
  "caseless_table seen c rest = [c]"

text \<open>
  \<^verbatim>\<open>s.replace(old, new)\<close>: the occurrences of \<open>old\<close> are found from the left, without
  overlap, and each becomes \<open>new\<close>. An empty \<open>old\<close> matches before every code point and at
  the end.
\<close>

function py_replace :: "pystr \<Rightarrow> pystr \<Rightarrow> pystr \<Rightarrow> pystr" where
  "py_replace old new [] = (if old = [] then new else [])"
| "py_replace old new (c # cs) =
     (if old = [] then new @ c # py_replace old new cs
      else if prefix old (c # cs) then new @ py_replace old new (drop (length old) (c # cs))
      else c # py_replace old new cs)"
  by pat_completeness auto
termination
  by (relation "measure (\<lambda>(old, new, s). length s)") auto

text \<open>The decimal digits of a number, as an f-string renders \<^verbatim>\<open>{len(embedded_images)}\<close>.\<close>

fun str_of_nat :: "nat \<Rightarrow> pystr" where
  "str_of_nat n = (if n < 10 then [48 + n] else str_of_nat (n div 10) @ [48 + n mod 10])"

section \<open>\<^verbatim>\<open>base64.b64encode\<close>\<close>

definition b64_alphabet :: string where
  "b64_alphabet = ''ABCDEFGHIJKLMNOPQRSTUVWXYZabcdefghijklmnopqrstuvwxyz0123456789+/''"

fun b64_groups :: "nat list \<Rightarrow> bytes" where
  "b64_groups [] = []"
| "b64_groups [a] =
     [b64_alphabet ! (a div 4), b64_alphabet ! ((a mod 4) * 16), CHR ''='', CHR ''='']"
| "b64_groups [a, b] =
     [b64_alphabet ! (a div 4), b64_alphabet ! ((a mod 4) * 16 + b div 16),
      b64_alphabet ! ((b mod 16) * 4), CHR ''='']"
| "b64_groups (a # b # c # rest) =
     [b64_alphabet ! (a div 4), b64_alphabet ! ((a mod 4) * 16 + b div 16),
      b64_alphabet ! ((b mod 16) * 4 + c div 64), b64_alphabet ! (c mod 64)]
     @ b64_groups rest"

definition b64encode :: "bytes \<Rightarrow> bytes" where
  "b64encode image_data = b64_groups (map of_char image_data)"

section \<open>The message: a tree of parts\<close>

text \<open>
  The value \<^verbatim>\<open>part.get(name)\<close> returns for a header that is there. The message is parsed by
  \<^verbatim>\<open>email.message_from_bytes\<close> (line 154) under the default policy: a header whose raw
  value is ASCII comes back as a string, one with a byte above 127 comes back as an
  \<^verbatim>\<open>email.header.Header\<close> object (here with the raw text it was made from).
\<close>

datatype header_value = Str pystr | Header pystr

text \<open>
  A part of the parsed message (\<^verbatim>\<open>email.message.Message\<close>) carries what the program reads
  from it: the value of \<^verbatim>\<open>get_content_type()\<close>, the \<^verbatim>\<open>Content-ID\<close> header when there is
  one, the value of \<^verbatim>\<open>get_filename()\<close>, and either the decoded payload bytes (a leaf) or
  the sub-parts (a multipart container, whose \<^verbatim>\<open>get_payload(decode=True)\<close> is \<^verbatim>\<open>None\<close>).
\<close>

datatype part =
    Leaf pystr "header_value option" "pystr option" bytes
  | Multipart pystr "header_value option" "pystr option" "part list"

fun get_content_type :: "part \<Rightarrow> pystr" where
  "get_content_type (Leaf ctype cid fname payload) = ctype"
| "get_content_type (Multipart ctype cid fname parts) = ctype"

text \<open>\<^verbatim>\<open>get_content_maintype()\<close> is \<^verbatim>\<open>get_content_type().split('/')[0]\<close>.\<close>

definition get_content_maintype :: "part \<Rightarrow> pystr" where
  "get_content_maintype p = takeWhile (\<lambda>c. c \<noteq> 47) (get_content_type p)"

text \<open>\<^verbatim>\<open>part.get('Content-ID', '')\<close>\<close>

fun get_content_id :: "part \<Rightarrow> header_value" where
  "get_content_id (Leaf ctype cid fname payload) = (case cid of None \<Rightarrow> Str [] | Some v \<Rightarrow> v)"
| "get_content_id (Multipart ctype cid fname parts) =
     (case cid of None \<Rightarrow> Str [] | Some v \<Rightarrow> v)"

text \<open>
  \<^verbatim>\<open>v.strip(chars)\<close> on such a value: a \<^verbatim>\<open>Header\<close> object has no method \<^verbatim>\<open>strip\<close>, the
  call raises \<^verbatim>\<open>AttributeError\<close>.
\<close>

definition strip_header :: "header_value \<Rightarrow> pystr \<Rightarrow> py_error + pystr" where
  "strip_header v chars =
     (case v of Str s \<Rightarrow> Inr (strip_chars chars s) | Header raw \<Rightarrow> Inl AttributeError)"

fun get_filename :: "part \<Rightarrow> pystr option" where
  "get_filename (Leaf ctype cid fname payload) = fname"
| "get_filename (Multipart ctype cid fname parts) = fname"

text \<open>\<^verbatim>\<open>part.get_payload(decode=True)\<close>\<close>

fun get_payload :: "part \<Rightarrow> bytes option" where
  "get_payload (Leaf ctype cid fname payload) = Some payload"
| "get_payload (Multipart ctype cid fname parts) = None"

text \<open>\<^verbatim>\<open>msg.walk()\<close>: the part itself, then the walk of each sub-part, in order.\<close>

fun walk :: "part \<Rightarrow> part list" where
  "walk (Leaf ctype cid fname payload) = [Leaf ctype cid fname payload]"
| "walk (Multipart ctype cid fname parts) =
     Multipart ctype cid fname parts # concat (map walk parts)"

section \<open>Body selection (lines 52 to 84)\<close>

text \<open>Python's truth value of \<^verbatim>\<open>html_body\<close>: \<^verbatim>\<open>None\<close> and the empty string are false.\<close>

definition truthy :: "pystr option \<Rightarrow> bool" where
  "truthy v = (case v of None \<Rightarrow> False | Some s \<Rightarrow> s \<noteq> [])"

text \<open>
  The first loop: the first part of the walk whose content type is \<^verbatim>\<open>text/html\<close> is
  decoded and the loop breaks. \<open>Inr None\<close>: no such part, \<^verbatim>\<open>html_body\<close> is still
  \<^verbatim>\<open>None\<close>. Calling \<^verbatim>\<open>decode\<close> on a payload that is \<^verbatim>\<open>None\<close> raises \<^verbatim>\<open>AttributeError\<close>,
  which \<^verbatim>\<open>safe_decode\<close> does not catch.
\<close>

definition find_html_body ::
  "(bytes \<Rightarrow> py_error + pystr) \<Rightarrow> part \<Rightarrow> py_error + pystr option" where
  "find_html_body utf8_replace msg =
     (case List.find (\<lambda>p. get_content_type p = str ''text/html'') (walk msg) of
        None \<Rightarrow> Inr None
      | Some p \<Rightarrow>
          (case get_payload p of
             None \<Rightarrow> Inl AttributeError
           | Some payload \<Rightarrow>
               (case safe_decode utf8_replace payload encodings of
                  Inl e \<Rightarrow> Inl e
                | Inr decoded \<Rightarrow> Inr (Some decoded))))"

text \<open>The f-string of lines 73 to 83, with its line breaks and indentation.\<close>

definition plain_template :: "pystr \<Rightarrow> pystr" where
  "plain_template plain_text =
     [10] @ replicate 16 32 @ str ''<!DOCTYPE html>'' @
     [10] @ replicate 16 32 @ str ''<html>'' @
     [10] @ replicate 16 32 @ str ''<head>'' @
     [10] @ replicate 20 32 @ str ''<meta charset='' @ [34] @ str ''UTF-8'' @ [34] @ str ''>'' @
     [10] @ replicate 16 32 @ str ''</head>'' @
     [10] @ replicate 16 32 @ str ''<body>'' @
     [10] @ replicate 20 32 @ str ''<pre>'' @ plain_text @ str ''</pre>'' @
     [10] @ replicate 16 32 @ str ''</body>'' @
     [10] @ replicate 16 32 @ str ''</html>'' @
     [10] @ replicate 16 32"

text \<open>
  The second loop: the first \<^verbatim>\<open>text/plain\<close> part, decoded and put into the template.
  \<open>Inr None\<close>: no such part, \<^verbatim>\<open>html_body\<close> keeps its value.
\<close>

definition find_plain_body ::
  "(bytes \<Rightarrow> py_error + pystr) \<Rightarrow> part \<Rightarrow> py_error + pystr option" where
  "find_plain_body utf8_replace msg =
     (case List.find (\<lambda>p. get_content_type p = str ''text/plain'') (walk msg) of
        None \<Rightarrow> Inr None
      | Some p \<Rightarrow>
          (case get_payload p of
             None \<Rightarrow> Inl AttributeError
           | Some payload \<Rightarrow>
               (case safe_decode utf8_replace payload encodings of
                  Inl e \<Rightarrow> Inl e
                | Inr plain_text \<Rightarrow> Inr (Some (plain_template plain_text)))))"

text \<open>The value of \<^verbatim>\<open>html_body\<close> at line 85.\<close>

definition select_body ::
  "(bytes \<Rightarrow> py_error + pystr) \<Rightarrow> part \<Rightarrow> py_error + pystr option" where
  "select_body utf8_replace msg =
     (case find_html_body utf8_replace msg of
        Inl e \<Rightarrow> Inl e
      | Inr html_body \<Rightarrow>
          (if \<not> truthy html_body
           then (case find_plain_body utf8_replace msg of
                   Inl e \<Rightarrow> Inl e
                 | Inr None \<Rightarrow> Inr html_body
                 | Inr (Some wrapped) \<Rightarrow> Inr (Some wrapped))
           else Inr html_body))"

section \<open>Inline images (lines 86 to 115)\<close>

record img_info =
  data :: pystr
  mime_type :: pystr
  filename :: pystr

text \<open>
  \<^verbatim>\<open>embedded_images\<close> is a dictionary, read back in insertion order: an association list
  in which a key that is already there keeps its place and takes the new value.
\<close>

type_synonym images = "(pystr \<times> img_info) list"

text \<open>
  \<^verbatim>\<open>content_id or filename or f'image_{n}'\<close>: the first operand that is neither empty
  nor \<^verbatim>\<open>None\<close>; the last one is never empty.
\<close>

definition img_key :: "pystr \<Rightarrow> pystr option \<Rightarrow> nat \<Rightarrow> pystr" where
  "img_key content_id fname n =
     (if content_id \<noteq> [] then content_id
      else (case fname of
              None \<Rightarrow> str ''image_'' @ str_of_nat n
            | Some f \<Rightarrow> if f \<noteq> [] then f else str ''image_'' @ str_of_nat n))"

text \<open>\<^verbatim>\<open>filename or img_key\<close>\<close>

definition display_name :: "pystr option \<Rightarrow> pystr \<Rightarrow> pystr" where
  "display_name fname key = (case fname of None \<Rightarrow> key | Some f \<Rightarrow> if f \<noteq> [] then f else key)"

text \<open>
  The body of the loop over the parts (lines 89 to 107). Line 91 strips the
  \<^verbatim>\<open>Content-ID\<close> value first, which raises when that value is a \<^verbatim>\<open>Header\<close> object;
  \<^verbatim>\<open>b64encode(None)\<close> raises \<^verbatim>\<open>TypeError\<close>; the Base64 text is decoded as UTF-8.
\<close>

definition add_image :: "part \<Rightarrow> images \<Rightarrow> py_error + images" where
  "add_image p embedded_images =
     (if get_content_maintype p = str ''image'' then
        (case strip_header (get_content_id p) (str ''<>'') of
           Inl e \<Rightarrow> Inl e
         | Inr content_id \<Rightarrow>
             (case get_payload p of
                None \<Rightarrow> Inl TypeError
              | Some image_data \<Rightarrow>
                  (case utf8_decode (b64encode image_data) of
                     None \<Rightarrow> Inl UnicodeDecodeError
                   | Some image_base64 \<Rightarrow>
                       Inr (AList.update
                              (img_key content_id (get_filename p) (length embedded_images))
                              \<lparr>data = image_base64, mime_type = get_content_type p,
                               filename =
                                 display_name (get_filename p)
                                   (img_key content_id (get_filename p)
                                      (length embedded_images))\<rparr>
                              embedded_images))))
      else Inr embedded_images)"

fun collect_images :: "part list \<Rightarrow> images \<Rightarrow> py_error + images" where
  "collect_images [] embedded_images = Inr embedded_images"
| "collect_images (p # ps) embedded_images =
     (case add_image p embedded_images of
        Inl e \<Rightarrow> Inl e
      | Inr embedded_images' \<Rightarrow> collect_images ps embedded_images')"

text \<open>\<^verbatim>\<open>f'data:{img_info["mime_type"]};base64,{img_info["data"]}'\<close>\<close>

definition data_uri :: "img_info \<Rightarrow> pystr" where
  "data_uri info = str ''data:'' @ mime_type info @ str '';base64,'' @ data info"

text \<open>The two replacements of lines 112 to 115 for one key.\<close>

definition replace_key :: "pystr \<Rightarrow> img_info \<Rightarrow> pystr \<Rightarrow> pystr" where
  "replace_key key info html_body =
     py_replace key (data_uri info) (py_replace (str ''cid:'' @ key) (data_uri info) html_body)"

text \<open>The loop over \<^verbatim>\<open>embedded_images.items()\<close>.\<close>

fun substitute :: "pystr \<Rightarrow> images \<Rightarrow> pystr" where
  "substitute html_body [] = html_body"
| "substitute html_body ((key, info) # rest) = substitute (replace_key key info html_body) rest"

section \<open>Finalization and the whole function (lines 117 to 131)\<close>

text \<open>The f-string of lines 119 to 129.\<close>

definition html_template :: "pystr \<Rightarrow> pystr" where
  "html_template html_body =
     [10] @ replicate 8 32 @ str ''<!DOCTYPE html>'' @
     [10] @ replicate 8 32 @ str ''<html>'' @
     [10] @ replicate 8 32 @ str ''<head>'' @
     [10] @ replicate 12 32 @ str ''<meta charset='' @ [34] @ str ''UTF-8'' @ [34] @ str ''>'' @
     [10] @ replicate 8 32 @ str ''</head>'' @
     [10] @ replicate 8 32 @ str ''<body>'' @
     [10] @ replicate 12 32 @ html_body @
     [10] @ replicate 8 32 @ str ''</body>'' @
     [10] @ replicate 8 32 @ str ''</html>'' @
     [10] @ replicate 8 32"

text \<open>
  \<^verbatim>\<open>html_body.strip().lower().startswith('<!doctype')\<close> or the same with
  \<^verbatim>\<open>'<html'\<close>: the test whose failure makes line 118 wrap the text.
\<close>

definition starts_as_document :: "lower_table \<Rightarrow> pystr \<Rightarrow> bool" where
  "starts_as_document tbl html_body =
     (startswith (py_lower tbl (py_strip html_body)) (str ''<!doctype'')
      \<or> startswith (py_lower tbl (py_strip html_body)) (str ''<html''))"

definition finalize :: "lower_table \<Rightarrow> pystr \<Rightarrow> pystr" where
  "finalize tbl html_body =
     (if \<not> startswith (py_lower tbl (py_strip html_body)) (str ''<!doctype'')
         \<and> \<not> startswith (py_lower tbl (py_strip html_body)) (str ''<html'')
      then html_template html_body
      else html_body)"

text \<open>
  The images are collected and substituted only when \<^verbatim>\<open>html_body\<close> is true (line 87).
  Line 118 calls \<^verbatim>\<open>strip\<close> on \<^verbatim>\<open>html_body\<close> whatever it is: on \<^verbatim>\<open>None\<close> that raises
  \<^verbatim>\<open>AttributeError\<close>.
\<close>

definition embed_images :: "part \<Rightarrow> pystr option \<Rightarrow> py_error + pystr option" where
  "embed_images msg html_body =
     (case html_body of
        None \<Rightarrow> Inr None
      | Some body \<Rightarrow>
          (if body \<noteq> [] then
             (case collect_images (walk msg) [] of
                Inl e \<Rightarrow> Inl e
              | Inr embedded_images \<Rightarrow> Inr (Some (substitute body embedded_images)))
           else Inr (Some body)))"

definition extract_html_with_embedded_images ::
  "(bytes \<Rightarrow> py_error + pystr) \<Rightarrow> lower_table \<Rightarrow> part \<Rightarrow> py_error + pystr option" where
  "extract_html_with_embedded_images utf8_replace tbl msg =
     (case select_body utf8_replace msg of
        Inl e \<Rightarrow> Inl e
      | Inr selected \<Rightarrow>
          (case embed_images msg selected of
             Inl e \<Rightarrow> Inl e
           | Inr None \<Rightarrow> Inl AttributeError
           | Inr (Some html_body) \<Rightarrow> Inr (Some (finalize tbl html_body))))"

section \<open>Properties of \<^verbatim>\<open>safe_decode\<close>\<close>

lemma bytes_decode_error:
  "bytes_decode payload encoding = Inl e \<Longrightarrow> e = UnicodeDecodeError \<or> e = LookupError"
  by (auto simp: bytes_decode_def lift_decode_def split: if_splits option.splits)

text \<open>The loop is a search for the first encoding of the list that decodes the payload.\<close>

lemma try_encodings_find:
  "try_encodings payload encs =
     Inr (case List.find (\<lambda>e. \<not> isl (bytes_decode payload e)) encs of
            None \<Rightarrow> None
          | Some e \<Rightarrow> Some (e, projr (bytes_decode payload e)))"
proof (induction encs)
  case Nil
  show ?case by simp
next
  case (Cons enc rest)
  show ?case
  proof (cases "bytes_decode payload enc")
    case (Inl e)
    with bytes_decode_error [OF Inl] Cons show ?thesis by auto
  next
    case (Inr s)
    then show ?thesis by simp
  qed
qed

lemma latin1_always: "bytes_decode payload ''latin-1'' = Inr (latin1_decode payload)"
  by (simp add: bytes_decode_def)

lemma find_encodings:
  "\<exists>enc. List.find (\<lambda>e. \<not> isl (bytes_decode payload e)) encodings = Some enc
      \<and> enc \<in> {''utf-8'', ''utf-8-sig'', ''cp1252'', ''latin-1''}"
  by (simp add: encodings_def latin1_always)

lemma find_not_isl:
  "List.find (\<lambda>e. \<not> isl (f e)) xs = Some enc \<Longrightarrow> \<exists>s. f enc = Inr s"
  by (induction xs) (auto split: if_splits simp: isl_def intro: sum.exhaust)

lemma try_encodings_succeeds:
  "\<exists>enc decoded. try_encodings payload encodings = Inr (Some (enc, decoded))
      \<and> enc \<in> {''utf-8'', ''utf-8-sig'', ''cp1252'', ''latin-1''}
      \<and> List.find (\<lambda>e. \<not> isl (bytes_decode payload e)) encodings = Some enc
      \<and> bytes_decode payload enc = Inr decoded"
proof -
  obtain enc where f: "List.find (\<lambda>e. \<not> isl (bytes_decode payload e)) encodings = Some enc"
    and m: "enc \<in> {''utf-8'', ''utf-8-sig'', ''cp1252'', ''latin-1''}"
    using find_encodings by blast
  obtain s where s: "bytes_decode payload enc = Inr s"
    using find_not_isl [of "bytes_decode payload" encodings enc] f by blast
  have "try_encodings payload encodings = Inr (Some (enc, s))"
    by (simp add: try_encodings_find f s)
  with f m s show ?thesis by blast
qed

lemma safe_decode_total:
  "\<exists>decoded. safe_decode utf8_replace payload encodings_to_try = Inr decoded"
  by (auto simp: safe_decode_def try_encodings_find latin1_always split: option.splits sum.splits)

text \<open>
  C5. \<^verbatim>\<open>safe_decode\<close> is total on byte sequences: for every payload, whatever list of
  encodings it is given and whatever the lossy decoder of the runtime does (even if it
  raises), it returns a string and raises nothing.
\<close>

theorem safe_decode_never_raises:
  "\<exists>decoded. safe_decode utf8_replace payload encodings_to_try = Inr decoded"
  by (rule safe_decode_total)

theorem safe_decode_never_raises_witness:
  "(\<exists>decoded. safe_decode cpython_utf8_replace ''hi'' [''ascii'']
       = Inr decoded)
   \<and> safe_decode cpython_utf8_replace ''hi'' [''ascii'']
       = Inr [104, 105]"
proof (rule conjI)
  show "\<exists>decoded. safe_decode cpython_utf8_replace ''hi'' [''ascii'']
      = Inr decoded"
    by (rule safe_decode_never_raises)
  show "safe_decode cpython_utf8_replace ''hi'' [''ascii'']
      = Inr [104, 105]"
    by code_simp
qed

text \<open>
  C6. The candidate encodings are tried in the order UTF-8, UTF-8 with signature,
  Windows-1252, Latin-1, ISO-8859-1, ISO-8859-15, ASCII, and \<^verbatim>\<open>safe_decode\<close> returns what
  the first encoding of that order that decodes the payload gives: the loop returns with
  that encoding (the one it logs) and its decoded text.
\<close>

theorem safe_decode_first_success:
  "\<exists>enc decoded.
     List.find (\<lambda>e. \<not> isl (bytes_decode payload e))
       [''utf-8'', ''utf-8-sig'', ''cp1252'', ''latin-1'', ''iso-8859-1'', ''iso-8859-15'',
        ''ascii''] = Some enc
     \<and> bytes_decode payload enc = Inr decoded
     \<and> try_encodings payload encodings = Inr (Some (enc, decoded))
     \<and> safe_decode utf8_replace payload encodings = Inr decoded"
proof -
  obtain enc s where t: "try_encodings payload encodings = Inr (Some (enc, s))"
    and f: "List.find (\<lambda>e. \<not> isl (bytes_decode payload e)) encodings = Some enc"
    and s: "bytes_decode payload enc = Inr s"
    using try_encodings_succeeds by blast
  show ?thesis using f s t by (simp add: safe_decode_def encodings_def)
qed

theorem safe_decode_first_success_witness:
  "(\<exists>enc decoded.
     List.find (\<lambda>e. \<not> isl (bytes_decode [CHR 0xE9] e))
       [''utf-8'', ''utf-8-sig'', ''cp1252'', ''latin-1'', ''iso-8859-1'', ''iso-8859-15'',
        ''ascii''] = Some enc
     \<and> bytes_decode [CHR 0xE9] enc = Inr decoded
     \<and> try_encodings [CHR 0xE9] encodings = Inr (Some (enc, decoded))
     \<and> safe_decode cpython_utf8_replace [CHR 0xE9] encodings = Inr decoded)
   \<and> bytes_decode [CHR 0xE9] ''utf-8'' = Inl UnicodeDecodeError
   \<and> bytes_decode [CHR 0xE9] ''utf-8-sig'' = Inl UnicodeDecodeError
   \<and> try_encodings [CHR 0xE9] encodings = Inr (Some (''cp1252'', [233]))
   \<and> safe_decode cpython_utf8_replace [CHR 0xE9] encodings = Inr [233]"
proof (intro conjI)
  show "\<exists>enc decoded.
     List.find (\<lambda>e. \<not> isl (bytes_decode [CHR 0xE9] e))
       [''utf-8'', ''utf-8-sig'', ''cp1252'', ''latin-1'', ''iso-8859-1'', ''iso-8859-15'',
        ''ascii''] = Some enc
     \<and> bytes_decode [CHR 0xE9] enc = Inr decoded
     \<and> try_encodings [CHR 0xE9] encodings = Inr (Some (enc, decoded))
     \<and> safe_decode cpython_utf8_replace [CHR 0xE9] encodings = Inr decoded"
    by (rule safe_decode_first_success)
  show "bytes_decode [CHR 0xE9] ''utf-8'' = Inl UnicodeDecodeError" by code_simp
  show "bytes_decode [CHR 0xE9] ''utf-8-sig'' = Inl UnicodeDecodeError" by code_simp
  show "try_encodings [CHR 0xE9] encodings = Inr (Some (''cp1252'', [233]))" by code_simp
  show "safe_decode cpython_utf8_replace [CHR 0xE9] encodings = Inr [233]" by code_simp
qed

text \<open>
  C10. The two fallbacks after the loop are unreachable for the list of the source:
  \<^verbatim>\<open>latin-1\<close> is in the list and decodes every byte sequence, so the loop returns with one
  of the first four encodings and never runs to its end; the result of \<^verbatim>\<open>safe_decode\<close> is
  the loop's, whatever the lossy decoder would return.
\<close>

theorem safe_decode_fallbacks_unreachable:
  "''latin-1'' \<in> set encodings
   \<and> bytes_decode payload ''latin-1'' = Inr (latin1_decode payload)
   \<and> try_encodings payload encodings \<noteq> Inr None
   \<and> (\<exists>enc decoded.
         try_encodings payload encodings = Inr (Some (enc, decoded))
         \<and> enc \<in> {''utf-8'', ''utf-8-sig'', ''cp1252'', ''latin-1''}
         \<and> safe_decode utf8_replace payload encodings = Inr decoded)"
proof -
  obtain enc s where t: "try_encodings payload encodings = Inr (Some (enc, s))"
    and m: "enc \<in> {''utf-8'', ''utf-8-sig'', ''cp1252'', ''latin-1''}"
    using try_encodings_succeeds by blast
  have "safe_decode utf8_replace payload encodings = Inr s"
    by (simp add: safe_decode_def t)
  with t m show ?thesis
    by (simp add: latin1_always encodings_def)
qed

theorem safe_decode_fallbacks_unreachable_witness:
  "(''latin-1'' \<in> set encodings
    \<and> bytes_decode [CHR 0x81] ''latin-1'' = Inr (latin1_decode [CHR 0x81])
    \<and> try_encodings [CHR 0x81] encodings \<noteq> Inr None
    \<and> (\<exists>enc decoded.
          try_encodings [CHR 0x81] encodings = Inr (Some (enc, decoded))
          \<and> enc \<in> {''utf-8'', ''utf-8-sig'', ''cp1252'', ''latin-1''}
          \<and> safe_decode cpython_utf8_replace [CHR 0x81] encodings = Inr decoded))
   \<and> bytes_decode [CHR 0x81] ''cp1252'' = Inl UnicodeDecodeError
   \<and> try_encodings [CHR 0x81] encodings = Inr (Some (''latin-1'', [129]))"
proof (rule conjI)
  show "''latin-1'' \<in> set encodings
    \<and> bytes_decode [CHR 0x81] ''latin-1'' = Inr (latin1_decode [CHR 0x81])
    \<and> try_encodings [CHR 0x81] encodings \<noteq> Inr None
    \<and> (\<exists>enc decoded.
          try_encodings [CHR 0x81] encodings = Inr (Some (enc, decoded))
          \<and> enc \<in> {''utf-8'', ''utf-8-sig'', ''cp1252'', ''latin-1''}
          \<and> safe_decode cpython_utf8_replace [CHR 0x81] encodings = Inr decoded)"
    by (rule safe_decode_fallbacks_unreachable)
  show "bytes_decode [CHR 0x81] ''cp1252'' = Inl UnicodeDecodeError
   \<and> try_encodings [CHR 0x81] encodings = Inr (Some (''latin-1'', [129]))"
    by (simp add: encodings_def bytes_decode_def lift_decode_def charmap_decode_def
        cp1252_char_def cp1252_high_def latin1_decode_def utf8_decode_def utf8_sig_decode_def)
qed

section \<open>Finalization\<close>

lemma strip_keeps_prefix:
  assumes "p \<noteq> []" and "\<not> P (last p)"
  shows "\<exists>r. rev (dropWhile P (rev (p @ q))) = p @ r"
proof -
  have hd: "\<not> P (hd (rev p))" using assms by (simp add: hd_rev)
  have rp: "rev p \<noteq> []" using assms by simp
  have d: "dropWhile P (rev p) = rev p"
    using hd rp by (cases "rev p") auto
  show ?thesis
    by (auto simp: dropWhile_append d)
qed

lemma lower_from_ascii:
  "list_all (\<lambda>c. c < 128) p \<Longrightarrow>
   lower_from tbl seen (p @ r) = map ascii_lower p @ lower_from tbl (seen @ p) r"
  by (induction p arbitrary: seen) auto

lemma html_template_shape:
  "html_template b = [10] @ replicate 8 32 @ str ''<!DOCTYPE'' @ (str '' html>'' @
     [10] @ replicate 8 32 @ str ''<html>'' @
     [10] @ replicate 8 32 @ str ''<head>'' @
     [10] @ replicate 12 32 @ str ''<meta charset='' @ [34] @ str ''UTF-8'' @ [34] @ str ''>'' @
     [10] @ replicate 8 32 @ str ''</head>'' @
     [10] @ replicate 8 32 @ str ''<body>'' @
     [10] @ replicate 12 32 @ b @
     [10] @ replicate 8 32 @ str ''</body>'' @
     [10] @ replicate 8 32 @ str ''</html>'' @
     [10] @ replicate 8 32)"
  by (simp add: html_template_def str_def)

lemma dropWhile_space_indent:
  "dropWhile is_space ([10] @ replicate n 32 @ str ''<!DOCTYPE'' @ q) = str ''<!DOCTYPE'' @ q"
proof -
  have "dropWhile is_space (replicate n 32 @ str ''<!DOCTYPE'' @ q) = str ''<!DOCTYPE'' @ q"
    by (induction n) (simp_all add: is_space_def str_def)
  then show ?thesis by (simp add: is_space_def)
qed

lemma strip_template:
  "\<exists>r. py_strip (html_template b) = str ''<!DOCTYPE'' @ r"
proof -
  have "\<exists>r. rev (dropWhile is_space (rev (str ''<!DOCTYPE'' @ q))) = str ''<!DOCTYPE'' @ r" for q
    by (rule strip_keeps_prefix) (simp_all add: str_def is_space_def)
  then show ?thesis
    unfolding py_strip_def html_template_shape dropWhile_space_indent by blast
qed

lemma template_starts_as_document: "starts_as_document tbl (html_template b)"
proof -
  obtain r where r: "py_strip (html_template b) = str ''<!DOCTYPE'' @ r"
    using strip_template by blast
  have "py_lower tbl (str ''<!DOCTYPE'' @ r)
      = map ascii_lower (str ''<!DOCTYPE'') @ lower_from tbl ([] @ str ''<!DOCTYPE'') r"
    unfolding py_lower_def by (rule lower_from_ascii) (simp add: str_def)
  then show ?thesis
    by (simp add: starts_as_document_def startswith_def r str_def ascii_lower_def)
qed

lemma finalize_cases:
  "finalize tbl b = (if starts_as_document tbl b then b else html_template b)"
  by (simp add: finalize_def starts_as_document_def)

lemma finalize_starts: "starts_as_document tbl (finalize tbl b)"
  by (simp add: finalize_cases template_starts_as_document)

text \<open>
  C9. Finalization is idempotent: a text that already starts as a document (after
  stripping white space and lowering, it begins with \<^verbatim>\<open><!doctype\<close> or \<^verbatim>\<open><html\<close>) is
  left unchanged, and finalizing twice gives what finalizing once gives, so no document
  is wrapped twice.
\<close>

theorem finalize_idempotent:
  "(starts_as_document tbl html_body \<longrightarrow> finalize tbl html_body = html_body)
   \<and> finalize tbl (finalize tbl html_body) = finalize tbl html_body"
  using finalize_starts [of tbl html_body] by (simp add: finalize_cases)

lemma example_already_document: "starts_as_document caseless_table (str ''  <HTML><p>x</p></HTML> '')"
  by (simp add: starts_as_document_def startswith_def py_strip_def py_lower_def str_def is_space_def ascii_lower_def)

section \<open>The whole function on small messages\<close>

lemma no_body_raises:
  assumes "List.find (\<lambda>p. get_content_type p = str ''text/html'') (walk msg) = None"
    and "List.find (\<lambda>p. get_content_type p = str ''text/plain'') (walk msg) = None"
  shows "select_body utf8_replace msg = Inr None"
    and "extract_html_with_embedded_images utf8_replace tbl msg = Inl AttributeError"
proof -
  show s: "select_body utf8_replace msg = Inr None"
    using assms by (simp add: select_body_def find_html_body_def find_plain_body_def truthy_def)
  show "extract_html_with_embedded_images utf8_replace tbl msg = Inl AttributeError"
    by (simp add: extract_html_with_embedded_images_def s embed_images_def)
qed

text \<open>
  C1 (code defect). A message with neither a \<^verbatim>\<open>text/html\<close> nor a \<^verbatim>\<open>text/plain\<close> part, here a
  multipart message holding one PDF attachment: body selection leaves \<^verbatim>\<open>html_body\<close> at
  \<^verbatim>\<open>None\<close>, and the function does not return it: line 118 raises \<^verbatim>\<open>AttributeError\<close>.
\<close>

theorem no_body_raises_attribute_error:
  "select_body cpython_utf8_replace
     (Multipart (str ''multipart/mixed'') None None
        [Leaf (str ''application/pdf'') None (Some (str ''a.pdf'')) ''%PDF'']) = Inr None
   \<and> extract_html_with_embedded_images cpython_utf8_replace caseless_table
     (Multipart (str ''multipart/mixed'') None None
        [Leaf (str ''application/pdf'') None (Some (str ''a.pdf'')) ''%PDF''])
     = Inl AttributeError"
  by (rule conjI; rule no_body_raises; simp add: str_def)

lemma ascii_utf8_strict: "list_all (\<lambda>b. b < 128) bs \<Longrightarrow> utf8_strict bs = Some bs"
  by (induction bs) auto

lemma safe_decode_ascii:
  "list_all (\<lambda>c. (of_char c :: nat) < 128) payload \<Longrightarrow>
   safe_decode utf8_replace payload encodings = Inr (map of_char payload)"
  by (simp add: safe_decode_def encodings_def bytes_decode_def lift_decode_def utf8_decode_def
      ascii_utf8_strict list_all_iff)

lemma html_only_body:
  "select_body cpython_utf8_replace (Leaf (str ''text/html'') None None ''<p>hi</p>'')
     = Inr (Some (str ''<p>hi</p>''))"
  by (simp add: select_body_def find_html_body_def safe_decode_ascii truthy_def str_def)

lemma html_only_images:
  "collect_images (walk (Leaf (str ''text/html'') None None ''<p>hi</p>'')) [] = Inr []"
  by (simp add: add_image_def get_content_maintype_def str_def)

lemma html_only_needs_wrap: "\<not> starts_as_document caseless_table (str ''<p>hi</p>'')"
  by (simp add: starts_as_document_def startswith_def py_strip_def py_lower_def str_def
      is_space_def ascii_lower_def)

lemma html_only_output:
  "extract_html_with_embedded_images cpython_utf8_replace caseless_table
     (Leaf (str ''text/html'') None None ''<p>hi</p>'')
   = Inr (Some (html_template (str ''<p>hi</p>'')))"
proof -
  have ne: "str ''<p>hi</p>'' \<noteq> []" by (simp add: str_def)
  show ?thesis
    using html_only_needs_wrap ne
    by (simp add: extract_html_with_embedded_images_def html_only_body embed_images_def html_only_images
        finalize_cases del: walk.simps collect_images.simps)
qed

text \<open>
  C2 (amended). Whenever the function returns a document, a body was selected, and the
  document is made from the text after substitution (the selected body with the collected
  images substituted; the selected body itself when that is empty): it is that text
  unchanged when the text already passes the test of line 118 (stripped of surrounding
  white space and lowered, it begins with \<^verbatim>\<open><!doctype\<close> or \<^verbatim>\<open><html\<close>), and otherwise that
  text inside the template of lines 119 to 129, which begins with a line break and eight
  spaces before \<^verbatim>\<open><!DOCTYPE html>\<close>. In both cases the document passes the test of line 118.
\<close>

theorem output_starts_as_document:
  assumes "extract_html_with_embedded_images utf8_replace tbl msg = Inr (Some out)"
  shows "\<exists>selected html_body.
      select_body utf8_replace msg = Inr (Some selected)
      \<and> (if selected \<noteq> []
         then \<exists>embedded_images. collect_images (walk msg) [] = Inr embedded_images
                \<and> html_body = substitute selected embedded_images
         else html_body = selected)
      \<and> out = (if starts_as_document tbl html_body then html_body
               else [10] @ replicate 8 32 @ str ''<!DOCTYPE html>'' @
                    [10] @ replicate 8 32 @ str ''<html>'' @
                    [10] @ replicate 8 32 @ str ''<head>'' @
                    [10] @ replicate 12 32 @ str ''<meta charset='' @ [34] @ str ''UTF-8''
                      @ [34] @ str ''>'' @
                    [10] @ replicate 8 32 @ str ''</head>'' @
                    [10] @ replicate 8 32 @ str ''<body>'' @
                    [10] @ replicate 12 32 @ html_body @
                    [10] @ replicate 8 32 @ str ''</body>'' @
                    [10] @ replicate 8 32 @ str ''</html>'' @
                    [10] @ replicate 8 32)
      \<and> starts_as_document tbl out"
proof -
  from assms obtain selected html_body where
    s: "select_body utf8_replace msg = Inr selected"
    and e: "embed_images msg selected = Inr (Some html_body)"
    and o: "out = finalize tbl html_body"
    by (auto simp: extract_html_with_embedded_images_def split: sum.splits option.splits)
  from e obtain body where b: "selected = Some body"
    by (cases selected) (auto simp: embed_images_def)
  have i: "if body \<noteq> []
         then \<exists>embedded_images. collect_images (walk msg) [] = Inr embedded_images
                \<and> html_body = substitute body embedded_images
         else html_body = body"
    using e unfolding b by (auto simp: embed_images_def split: sum.splits if_splits)
  have f: "out = (if starts_as_document tbl html_body then html_body else html_template html_body)"
    using o by (simp add: finalize_cases)
  have d: "starts_as_document tbl out"
    using o by (simp add: finalize_starts)
  show ?thesis
    apply (rule exI [of _ body])
    apply (rule exI [of _ html_body])
    using s b i f d by (simp add: html_template_def)
qed

theorem output_starts_as_document_witness:
  "extract_html_with_embedded_images cpython_utf8_replace caseless_table
     (Leaf (str ''text/html'') None None ''<p>hi</p>'')
   = Inr (Some (html_template (str ''<p>hi</p>'')))
   \<and> starts_as_document caseless_table (html_template (str ''<p>hi</p>''))"
proof -
  from output_starts_as_document [OF html_only_output]
  have "starts_as_document caseless_table (html_template (str ''<p>hi</p>''))" by blast
  with html_only_output show ?thesis by (intro conjI)
qed

text \<open>
  The claim as stated fails: for a message whose only part is the HTML text
  \<^verbatim>\<open><p>hi</p>\<close> the returned string begins with a line break, not with
  \<^verbatim>\<open><!DOCTYPE html>\<close> or \<^verbatim>\<open><html>\<close>.
\<close>

theorem output_begins_with_whitespace:
  "extract_html_with_embedded_images cpython_utf8_replace caseless_table
     (Leaf (str ''text/html'') None None ''<p>hi</p>'')
   = Inr (Some (html_template (str ''<p>hi</p>'')))
   \<and> \<not> startswith (html_template (str ''<p>hi</p>'')) (str ''<!DOCTYPE html>'')
   \<and> \<not> startswith (html_template (str ''<p>hi</p>'')) (str ''<html>'')
   \<and> hd (html_template (str ''<p>hi</p>'')) = 10"
  by (simp add: html_only_output) (simp add: html_template_def startswith_def str_def)

theorem finalize_idempotent_witness:
  "starts_as_document caseless_table (str ''  <HTML><p>x</p></HTML> '')
   \<and> finalize caseless_table (str ''  <HTML><p>x</p></HTML> '') = str ''  <HTML><p>x</p></HTML> ''
   \<and> finalize caseless_table (str ''<p>hi</p>'') = html_template (str ''<p>hi</p>'')
   \<and> finalize caseless_table (finalize caseless_table (str ''<p>hi</p>''))
       = html_template (str ''<p>hi</p>'')"
  using finalize_idempotent [of caseless_table "str ''  <HTML><p>x</p></HTML> ''"]
    finalize_idempotent [of caseless_table "str ''<p>hi</p>''"] example_already_document html_only_needs_wrap
  by (simp add: finalize_cases)

section \<open>Body selection\<close>

lemma utf8_strict_nonempty: "utf8_strict (b # bs) = Some r \<Longrightarrow> r \<noteq> []"
  by (auto split: if_splits list.splits)

lemma utf8_decode_nonempty: "payload \<noteq> [] \<Longrightarrow> utf8_decode payload = Some r \<Longrightarrow> r \<noteq> []"
proof (cases payload)
  case Nil
  then show "payload \<noteq> [] \<Longrightarrow> r \<noteq> []" by simp
next
  case (Cons c cs)
  assume "utf8_decode payload = Some r"
  then have "utf8_strict (of_char c # map of_char cs) = Some r"
    by (simp add: utf8_decode_def Cons del: utf8_strict.simps)
  then show "r \<noteq> []" by (rule utf8_strict_nonempty)
qed

lemma those_map_length: "those (map f xs) = Some ys \<Longrightarrow> length ys = length xs"
  by (induction xs arbitrary: ys) (auto split: option.splits)

lemma charmap_nonempty:
  "payload \<noteq> [] \<Longrightarrow> charmap_decode t payload = Some r \<Longrightarrow> r \<noteq> []"
  using those_map_length [of "\<lambda>c. t (of_char c)" payload r]
  by (auto simp: charmap_decode_def)

lemma bom_payload:
  assumes "take 3 (map of_char payload) = [239, 187, 191 :: nat]" "drop 3 payload = []"
  shows "utf8_decode payload = Some [65279]"
proof -
  have "length payload \<le> 3" using assms(2) by simp
  then have "map of_char payload = [239, 187, 191 :: nat]" using assms(1) by simp
  then show ?thesis by (simp add: utf8_decode_def is_cont_def)
qed

lemma safe_decode_nonempty:
  assumes "payload \<noteq> []" and "safe_decode utf8_replace payload encodings = Inr decoded"
  shows "decoded \<noteq> []"
proof (cases "utf8_decode payload")
  case (Some r)
  then have "safe_decode utf8_replace payload encodings = Inr r"
    by (simp add: safe_decode_def encodings_def bytes_decode_def lift_decode_def)
  with assms Some show ?thesis using utf8_decode_nonempty by auto
next
  case None
  note u = None
  show ?thesis
  proof (cases "utf8_sig_decode payload")
    case (Some r)
    then have d: "safe_decode utf8_replace payload encodings = Inr r"
      using u by (simp add: safe_decode_def encodings_def bytes_decode_def lift_decode_def)
    have "r \<noteq> []"
    proof (cases "take 3 (map of_char payload) = [239, 187, 191 :: nat]")
      case True
      then have s: "utf8_decode (drop 3 payload) = Some r"
        using Some by (simp add: utf8_sig_decode_def)
      have "drop 3 payload \<noteq> []" using bom_payload [OF True] u by auto
      then show ?thesis using s utf8_decode_nonempty by blast
    next
      case False
      then show ?thesis using Some u by (simp add: utf8_sig_decode_def)
    qed
    with d assms show ?thesis by simp
  next
    case None
    note s = None
    show ?thesis
    proof (cases "charmap_decode cp1252_char payload")
      case (Some r)
      then have "safe_decode utf8_replace payload encodings = Inr r"
        using u s by (simp add: safe_decode_def encodings_def bytes_decode_def lift_decode_def)
      with assms Some show ?thesis using charmap_nonempty by auto
    next
      case None
      then have "safe_decode utf8_replace payload encodings = Inr (latin1_decode payload)"
        using u s by (simp add: safe_decode_def encodings_def bytes_decode_def lift_decode_def)
      with assms show ?thesis by (auto simp: latin1_decode_def)
    qed
  qed
qed

lemma safe_decode_empty: "safe_decode utf8_replace [] encodings = Inr []"
  by (simp add: safe_decode_def encodings_def bytes_decode_def lift_decode_def utf8_decode_def)

text \<open>
  C3 (amended). In a message with a \<^verbatim>\<open>text/html\<close> part, the first such part of the walk is
  the one decoded. When its payload is not empty, the decoded text is not empty and is the
  selected body, whatever \<^verbatim>\<open>text/plain\<close> parts the message has. When its payload is empty,
  the decoded text is the empty string, which line 63 takes for a missing body: the
  \<^verbatim>\<open>text/plain\<close> search runs and its result, if any, is the body.
\<close>

theorem html_part_selected:
  assumes "List.find (\<lambda>p. get_content_type p = str ''text/html'') (walk msg) = Some p"
    and "get_payload p = Some payload"
  shows "\<exists>decoded.
           safe_decode utf8_replace payload encodings = Inr decoded
           \<and> find_html_body utf8_replace msg = Inr (Some decoded)
           \<and> (decoded = [] \<longleftrightarrow> payload = [])
           \<and> (payload \<noteq> [] \<longrightarrow> select_body utf8_replace msg = Inr (Some decoded))
           \<and> (payload = [] \<longrightarrow>
                select_body utf8_replace msg =
                  (case find_plain_body utf8_replace msg of
                     Inl e \<Rightarrow> Inl e
                   | Inr None \<Rightarrow> Inr (Some [])
                   | Inr (Some wrapped) \<Rightarrow> Inr (Some wrapped)))"
proof -
  obtain decoded where d: "safe_decode utf8_replace payload encodings = Inr decoded"
    using safe_decode_total by blast
  have f: "find_html_body utf8_replace msg = Inr (Some decoded)"
    using assms d by (simp add: find_html_body_def)
  have e: "decoded = [] \<longleftrightarrow> payload = []"
    using d safe_decode_nonempty [of payload utf8_replace decoded] safe_decode_empty [of utf8_replace]
    by auto
  show ?thesis
    using d f e by (auto simp: select_body_def truthy_def)
qed

theorem html_part_selected_witness:
  "List.find (\<lambda>p. get_content_type p = str ''text/html'')
     (walk (Multipart (str ''multipart/alternative'') None None
        [Leaf (str ''text/plain'') None None ''hi'', 
         Leaf (str ''text/html'') None None ''<b>x</b>'',
         Leaf (str ''text/html'') None None ''<i>y</i>'']))
     = Some (Leaf (str ''text/html'') None None ''<b>x</b>'')
   \<and> get_payload (Leaf (str ''text/html'') None None ''<b>x</b>'') = Some ''<b>x</b>''
   \<and> select_body cpython_utf8_replace
     (Multipart (str ''multipart/alternative'') None None
        [Leaf (str ''text/plain'') None None ''hi'', 
         Leaf (str ''text/html'') None None ''<b>x</b>'',
         Leaf (str ''text/html'') None None ''<i>y</i>''])
     = Inr (Some (str ''<b>x</b>''))"
proof -
  let ?msg = "Multipart (str ''multipart/alternative'') None None
        [Leaf (str ''text/plain'') None None ''hi'', 
         Leaf (str ''text/html'') None None ''<b>x</b>'',
         Leaf (str ''text/html'') None None ''<i>y</i>'']"
  have f: "List.find (\<lambda>p. get_content_type p = str ''text/html'') (walk ?msg)
     = Some (Leaf (str ''text/html'') None None ''<b>x</b>'')"
    by (simp add: str_def)
  have g: "get_payload (Leaf (str ''text/html'') None None ''<b>x</b>'') = Some ''<b>x</b>''"
    by simp
  have d: "safe_decode cpython_utf8_replace ''<b>x</b>'' encodings = Inr (str ''<b>x</b>'')"
    by (simp add: safe_decode_ascii str_def)
  show ?thesis
    using html_part_selected [OF f g, of cpython_utf8_replace] f d by simp
qed

lemma empty_html_body:
  "select_body cpython_utf8_replace
     (Multipart (str ''multipart/alternative'') None None
        [Leaf (str ''text/html'') None None [], Leaf (str ''text/plain'') None None ''hi''])
   = Inr (Some (plain_template (str ''hi'')))"
  by (simp add: select_body_def find_html_body_def find_plain_body_def safe_decode_ascii
      safe_decode_empty truthy_def str_def)

text \<open>
  The claim as stated fails: with an empty \<^verbatim>\<open>text/html\<close> part before a \<^verbatim>\<open>text/plain\<close> part,
  the plain text is the selected body.
\<close>

theorem empty_html_part_falls_back_to_plain:
  "List.find (\<lambda>p. get_content_type p = str ''text/html'')
     (walk (Multipart (str ''multipart/alternative'') None None
        [Leaf (str ''text/html'') None None [], Leaf (str ''text/plain'') None None ''hi'']))
     = Some (Leaf (str ''text/html'') None None [])
   \<and> select_body cpython_utf8_replace
     (Multipart (str ''multipart/alternative'') None None
        [Leaf (str ''text/html'') None None [], Leaf (str ''text/plain'') None None ''hi''])
     = Inr (Some (plain_template (str ''hi'')))"
  by (simp add: empty_html_body) (simp add: str_def)

section \<open>Image keys\<close>

lemma b64_alphabet_ascii: "n < 64 \<Longrightarrow> (of_char (b64_alphabet ! n) :: nat) < 128"
proof -
  have a: "list_all (\<lambda>c. (of_char c :: nat) < 128) b64_alphabet"
    by (simp add: b64_alphabet_def)
  have l: "length b64_alphabet = 64" by (simp add: b64_alphabet_def)
  assume "n < 64"
  with a l show ?thesis by (simp add: list_all_length)
qed

lemma b64_groups_ascii:
  "list_all (\<lambda>b. b < 256) bs \<Longrightarrow> list_all (\<lambda>c. (of_char c :: nat) < 128) (b64_groups bs)"
proof (induction bs rule: b64_groups.induct)
  case 1
  show ?case by simp
next
  case (2 a)
  then have "a div 4 < 64" "(a mod 4) * 16 < 64" by auto
  then show ?case by (simp add: b64_alphabet_ascii)
next
  case (3 a b)
  then have "a div 4 < 64" "(a mod 4) * 16 + b div 16 < 64" "(b mod 16) * 4 < 64" by auto
  then show ?case by (simp add: b64_alphabet_ascii)
next
  case (4 a b c rest)
  then have "a div 4 < 64" "(a mod 4) * 16 + b div 16 < 64" "(b mod 16) * 4 + c div 64 < 64"
    "c mod 64 < 64" by auto
  with 4 show ?case by (simp add: b64_alphabet_ascii)
qed

lemma b64encode_decodes:
  "utf8_decode (b64encode image_data) = Some (map of_char (b64encode image_data))"
proof -
  have "list_all (\<lambda>c. (of_char c :: nat) < 128) (b64encode image_data)"
    unfolding b64encode_def by (rule b64_groups_ascii) (simp add: list_all_iff)
  then show ?thesis
    unfolding utf8_decode_def by (intro ascii_utf8_strict) (simp add: list_all_iff)
qed

lemma add_image_leaf:
  assumes "get_content_maintype p = str ''image''" and "get_content_id p = Str raw"
    and "get_payload p = Some image_data"
  shows "add_image p embedded_images =
     Inr (AList.update
            (img_key (strip_chars (str ''<>'') raw) (get_filename p) (length embedded_images))
            \<lparr>data = map of_char (b64encode image_data), mime_type = get_content_type p,
             filename = display_name (get_filename p)
               (img_key (strip_chars (str ''<>'') raw) (get_filename p)
                  (length embedded_images))\<rparr>
            embedded_images)"
  using assms by (simp add: add_image_def strip_header_def b64encode_decodes)

lemma add_image_header:
  "get_content_maintype p = str ''image'' \<Longrightarrow> get_content_id p = Header raw \<Longrightarrow>
   add_image p embedded_images = Inl AttributeError"
  by (simp add: add_image_def strip_header_def)

lemma add_image_other:
  "get_content_maintype p \<noteq> str ''image'' \<Longrightarrow> add_image p embedded_images = Inr embedded_images"
  by (simp add: add_image_def)

lemma collect_images_append:
  "collect_images (ps @ qs) acc =
     (case collect_images ps acc of Inl e \<Rightarrow> Inl e | Inr acc' \<Rightarrow> collect_images qs acc')"
  by (induction ps arbitrary: acc) (auto split: sum.splits)

lemma add_image_distinct:
  "add_image p acc = Inr acc' \<Longrightarrow> distinct (map fst acc) \<Longrightarrow> distinct (map fst acc')"
  by (auto simp: add_image_def distinct_update split: if_splits option.splits sum.splits)

lemma update_length:
  "length (AList.update k v al) = (if k \<in> fst ` set al then length al else Suc (length al))"
  by (induction al) auto

lemma update_length_le: "length (AList.update k v al) \<le> Suc (length al)"
  by (simp add: update_length)

lemma add_image_length:
  "add_image p acc = Inr acc' \<Longrightarrow>
   length acc' \<le> length acc + (if get_content_maintype p = str ''image'' then 1 else 0)"
  using update_length_le [of _ _ acc]
  by (auto simp: add_image_def split: if_splits option.splits sum.splits)

lemma collect_images_distinct:
  "collect_images ps acc = Inr acc' \<Longrightarrow> distinct (map fst acc) \<Longrightarrow> distinct (map fst acc')"
proof (induction ps arbitrary: acc)
  case Nil
  then show ?case by simp
next
  case (Cons p ps)
  then show ?case
    by (auto split: sum.splits dest: add_image_distinct)
qed

lemma collect_images_length:
  "collect_images ps acc = Inr acc' \<Longrightarrow>
   length acc' \<le> length acc + length (filter (\<lambda>q. get_content_maintype q = str ''image'') ps)"
proof (induction ps arbitrary: acc)
  case Nil
  then show ?case by simp
next
  case (Cons p ps)
  from Cons.prems obtain a where a: "add_image p acc = Inr a" and r: "collect_images ps a = Inr acc'"
    by (auto split: sum.splits)
  from Cons.IH [OF r] add_image_length [OF a] show ?case by (auto split: if_splits)
qed

text \<open>
  C7 (amended). When the walk reaches an image part whose \<^verbatim>\<open>Content-ID\<close> is a string or is
  missing, the key it is stored under is its content-id stripped of leading and trailing
  \<^verbatim>\<open><\<close> and \<^verbatim>\<open>>\<close> when that is not empty, else its filename when there is one and it is not
  empty, else \<^verbatim>\<open>image_\<close> followed by the number \<open>n\<close> of entries the dictionary has at that
  point. That number is the number of distinct keys stored so far and at most the number
  of image parts already met: storing an image under a key that is already there leaves
  the number of entries as it is, storing it under a new key adds one.
\<close>

theorem image_key_assignment:
  assumes "walk msg = pre @ p # post"
    and "collect_images pre [] = Inr embedded_images"
    and "get_content_maintype p = str ''image''"
    and "get_content_id p = Str raw"
    and "get_payload p = Some image_data"
  shows "\<exists>key info.
      collect_images (walk msg) [] = collect_images post (AList.update key info embedded_images)
      \<and> map_of (AList.update key info embedded_images) key = Some info
      \<and> data info = map of_char (b64encode image_data)
      \<and> mime_type info = get_content_type p
      \<and> key = (if strip_chars (str ''<>'') raw \<noteq> []
               then strip_chars (str ''<>'') raw
               else (case get_filename p of
                       None \<Rightarrow> str ''image_'' @ str_of_nat (length embedded_images)
                     | Some f \<Rightarrow>
                         if f \<noteq> [] then f
                         else str ''image_'' @ str_of_nat (length embedded_images)))
      \<and> length embedded_images = card (fst ` set embedded_images)
      \<and> length embedded_images
           \<le> length (filter (\<lambda>q. get_content_maintype q = str ''image'') pre)
      \<and> length (AList.update key info embedded_images)
           = (if key \<in> fst ` set embedded_images then length embedded_images
              else Suc (length embedded_images))"
proof -
  let ?key = "img_key (strip_chars (str ''<>'') raw) (get_filename p) (length embedded_images)"
  let ?info = "\<lparr>data = map of_char (b64encode image_data), mime_type = get_content_type p,
             filename = display_name (get_filename p) ?key\<rparr>"
  have c: "collect_images (walk msg) [] = collect_images post (AList.update ?key ?info embedded_images)"
    using assms by (simp add: collect_images_append add_image_leaf)
  have d: "distinct (map fst embedded_images)"
    using collect_images_distinct [OF assms(2)] by simp
  have n: "length embedded_images = card (fst ` set embedded_images)"
    using distinct_card [OF d] by simp
  have l: "length embedded_images \<le> length (filter (\<lambda>q. get_content_maintype q = str ''image'') pre)"
    using collect_images_length [OF assms(2)] by simp
  have k: "?key = (if strip_chars (str ''<>'') raw \<noteq> []
               then strip_chars (str ''<>'') raw
               else (case get_filename p of
                       None \<Rightarrow> str ''image_'' @ str_of_nat (length embedded_images)
                     | Some f \<Rightarrow>
                         if f \<noteq> [] then f
                         else str ''image_'' @ str_of_nat (length embedded_images)))"
    by (simp add: img_key_def)
  have m: "map_of (AList.update ?key ?info embedded_images) ?key = Some ?info"
    by (simp add: update_conv')
  have u: "length (AList.update ?key ?info embedded_images)
           = (if ?key \<in> fst ` set embedded_images then length embedded_images
              else Suc (length embedded_images))"
    by (rule update_length)
  show ?thesis
    apply (rule exI [of _ ?key])
    apply (rule exI [of _ ?info])
    using c m k n l u by simp
qed

lemma b64_abc: "map of_char (b64encode ''abc'') = str ''YWJj''"
  by (simp add: b64encode_def b64_alphabet_def str_def)

lemma strip_cid_a: "strip_chars (str ''<>'') (str ''<a>'') = str ''a''"
  by (simp add: strip_chars_def str_def)

lemma image_png_maintype [simp]:
  "get_content_maintype (Leaf (str ''image/png'') cid fname d) = str ''image''"
  by (simp add: get_content_maintype_def str_def)

lemma text_html_maintype [simp]:
  "get_content_maintype (Leaf (str ''text/html'') cid fname d) \<noteq> str ''image''"
  by (simp add: get_content_maintype_def str_def)

lemma multipart_maintype [simp]:
  "get_content_maintype (Multipart (str ''multipart/related'') cid fname ps) \<noteq> str ''image''"
  by (simp add: get_content_maintype_def str_def)

lemma key_a: "img_key (strip_chars (str ''<>'') (str ''<a>'')) fname n = str ''a''"
  by (simp add: img_key_def strip_cid_a) (simp add: str_def)

lemma key_none: "img_key (strip_chars (str ''<>'') []) None n = str ''image_'' @ str_of_nat n"
  by (simp add: img_key_def strip_chars_def)

lemma key_empty_filename:
  "img_key (strip_chars (str ''<>'') []) (Some []) n = str ''image_'' @ str_of_nat n"
  by (simp add: img_key_def strip_chars_def)

lemma content_id_values [simp]:
  "get_content_id (Leaf ct None fname d) = Str []"
  "get_content_id (Leaf ct (Some v) fname d) = v"
  by simp_all

lemma str_of_nat_digits: "str_of_nat 0 = str ''0''" "str_of_nat (Suc 0) = str ''1''"
  "str_of_nat (Suc (Suc 0)) = str ''2''"
  by (simp_all add: str_def)

lemma image_names: "str ''image_'' @ str ''0'' = str ''image_0''"
  "str ''image_'' @ str ''1'' = str ''image_1''" "str ''image_'' @ str ''2'' = str ''image_2''"
  by (simp_all add: str_def)

lemma image_key_facts: "str ''a'' \<noteq> str ''image_1''" "str ''a'' \<noteq> str ''image_2''"
  "str ''image_1'' \<noteq> str ''image_2''" "str ''image_1'' \<noteq> str ''a''"
  by (simp_all add: str_def)

lemma pic_png_facts: "str ''pic.png'' \<noteq> []" "str ''a'' \<noteq> str ''pic.png''"
  by (simp_all add: str_def)

theorem image_key_assignment_witness:
  "walk (Multipart (str ''multipart/related'') None None
        [Leaf (str ''text/html'') None None ''<p>x</p>'',
         Leaf (str ''image/png'') (Some (Str (str ''<a>''))) None ''abc'',
         Leaf (str ''image/png'') None (Some (str ''pic.png'')) ''abc''])
     = [Multipart (str ''multipart/related'') None None
          [Leaf (str ''text/html'') None None ''<p>x</p>'',
           Leaf (str ''image/png'') (Some (Str (str ''<a>''))) None ''abc'',
           Leaf (str ''image/png'') None (Some (str ''pic.png'')) ''abc''],
        Leaf (str ''text/html'') None None ''<p>x</p>'',
        Leaf (str ''image/png'') (Some (Str (str ''<a>''))) None ''abc'']
       @ Leaf (str ''image/png'') None (Some (str ''pic.png'')) ''abc'' # []
   \<and> collect_images
        [Multipart (str ''multipart/related'') None None
          [Leaf (str ''text/html'') None None ''<p>x</p>'',
           Leaf (str ''image/png'') (Some (Str (str ''<a>''))) None ''abc'',
           Leaf (str ''image/png'') None (Some (str ''pic.png'')) ''abc''],
         Leaf (str ''text/html'') None None ''<p>x</p>'',
         Leaf (str ''image/png'') (Some (Str (str ''<a>''))) None ''abc''] []
     = Inr [(str ''a'',
             \<lparr>data = str ''YWJj'', mime_type = str ''image/png'', filename = str ''a''\<rparr>)]
   \<and> (\<exists>info.
        collect_images
          (walk (Multipart (str ''multipart/related'') None None
             [Leaf (str ''text/html'') None None ''<p>x</p>'',
              Leaf (str ''image/png'') (Some (Str (str ''<a>''))) None ''abc'',
              Leaf (str ''image/png'') None (Some (str ''pic.png'')) ''abc''])) []
        = Inr [(str ''a'',
                \<lparr>data = str ''YWJj'', mime_type = str ''image/png'', filename = str ''a''\<rparr>),
               (str ''pic.png'', info)]
        \<and> data info = str ''YWJj'' \<and> mime_type info = str ''image/png'')"
proof -
  let ?a = "Leaf (str ''image/png'') (Some (Str (str ''<a>''))) None ''abc''"
  let ?p = "Leaf (str ''image/png'') None (Some (str ''pic.png'')) ''abc''"
  let ?h = "Leaf (str ''text/html'') None None ''<p>x</p>''"
  let ?msg = "Multipart (str ''multipart/related'') None None [?h, ?a, ?p]"
  let ?ia = "\<lparr>data = str ''YWJj'', mime_type = str ''image/png'', filename = str ''a''\<rparr>"
  have w: "walk ?msg = [?msg, ?h, ?a] @ ?p # []" by simp
  have c: "collect_images [?msg, ?h, ?a] [] = Inr [(str ''a'', ?ia)]"
    by (simp add: add_image_def strip_header_def b64encode_decodes key_a b64_abc display_name_def)
  have m: "get_content_maintype ?p = str ''image''" by simp
  have i: "get_content_id ?p = Str []" by simp
  have g: "get_payload ?p = Some ''abc''" by simp
  from image_key_assignment [OF w c m i g] obtain key info where
    r: "collect_images (walk ?msg) [] = collect_images [] (AList.update key info [(str ''a'', ?ia)])"
    and k: "key = str ''pic.png''"
    and d: "data info = map of_char (b64encode ''abc'')"
    and t: "mime_type info = str ''image/png''"
    using pic_png_facts by (auto simp: strip_chars_def)
  have "collect_images (walk ?msg) [] = Inr [(str ''a'', ?ia), (str ''pic.png'', info)]"
    using pic_png_facts unfolding r k by simp
  with w c d t show ?thesis by (simp add: b64_abc del: walk.simps collect_images.simps)
qed

text \<open>
  The claim as stated fails: after two images with the same content-id the dictionary
  has one entry, so the third image, with no content-id and no filename, is stored under
  \<^verbatim>\<open>image_1\<close> although two images were collected before it; and an image whose filename is
  the empty string gets a synthetic key.
\<close>

theorem synthetic_key_counts_entries:
  "collect_images
     [Multipart (str ''multipart/related'') None None [],
      Leaf (str ''text/html'') None None ''<p>x</p>'',
      Leaf (str ''image/png'') (Some (Str (str ''<a>''))) None ''abc'',
      Leaf (str ''image/png'') (Some (Str (str ''<a>''))) None ''abc''] []
   = Inr [(str ''a'', \<lparr>data = str ''YWJj'', mime_type = str ''image/png'', filename = str ''a''\<rparr>)]
   \<and> collect_images
     (walk (Multipart (str ''multipart/related'') None None
        [Leaf (str ''text/html'') None None ''<p>x</p>'',
         Leaf (str ''image/png'') (Some (Str (str ''<a>''))) None ''abc'',
         Leaf (str ''image/png'') (Some (Str (str ''<a>''))) None ''abc'',
         Leaf (str ''image/png'') None None ''abc'',
         Leaf (str ''image/png'') None (Some []) ''abc''])) []
   = Inr [(str ''a'', \<lparr>data = str ''YWJj'', mime_type = str ''image/png'', filename = str ''a''\<rparr>),
          (str ''image_1'',
           \<lparr>data = str ''YWJj'', mime_type = str ''image/png'', filename = str ''image_1''\<rparr>),
          (str ''image_2'',
           \<lparr>data = str ''YWJj'', mime_type = str ''image/png'', filename = str ''image_2''\<rparr>)]"
  by (simp add: add_image_def strip_header_def b64encode_decodes key_a key_none key_empty_filename b64_abc
      display_name_def str_of_nat_digits image_names image_key_facts del: str_of_nat.simps)

section \<open>Substitution of image references\<close>



lemma data_uri_nonempty: "data_uri info \<noteq> []"
  by (simp add: data_uri_def str_def)





























lemma image_gif_maintype [simp]:
  "get_content_maintype (Leaf (str ''image/gif'') cid fname d) = str ''image''"
  by (simp add: get_content_maintype_def str_def)
















end
